theory Spec2Isabelle
  imports Complex_Main
begin

section \<open>JavaScript strings\<close>

text \<open>
  A JavaScript string is modelled as a \<^typ>\<open>string\<close>; one \<^typ>\<open>char\<close> stands for one
  code unit and \<open>length\<close> is the \<open>.length\<close> of the source. Case mapping and white space
  are those of the ASCII range; other characters have no case and are not white space.
\<close>

definition upper_letters :: string where
  "upper_letters = ''ABCDEFGHIJKLMNOPQRSTUVWXYZ''"

definition lower_letters :: string where
  "lower_letters = ''abcdefghijklmnopqrstuvwxyz''"

definition digit_chars :: string where
  "digit_chars = ''0123456789''"

definition lower_char :: "char \<Rightarrow> char" where
  "lower_char c = (case map_of (zip upper_letters lower_letters) c of Some d \<Rightarrow> d | None \<Rightarrow> c)"

definition upper_char :: "char \<Rightarrow> char" where
  "upper_char c = (case map_of (zip lower_letters upper_letters) c of Some d \<Rightarrow> d | None \<Rightarrow> c)"

definition toLowerCase :: "string \<Rightarrow> string" where
  "toLowerCase s = map lower_char s"

definition is_space :: "char \<Rightarrow> bool" where
  "is_space c = (c \<in> set [CHR 0x09, CHR 0x0A, CHR 0x0B, CHR 0x0C, CHR 0x0D, CHR 0x20])"

definition trim :: "string \<Rightarrow> string" where
  "trim s = rev (dropWhile is_space (rev (dropWhile is_space s)))"

definition startsWith :: "string \<Rightarrow> string \<Rightarrow> bool" where
  "startsWith s q = (take (length q) s = q)"

definition endsWith :: "string \<Rightarrow> string \<Rightarrow> bool" where
  "endsWith s q = (length q \<le> length s \<and> drop (length s - length q) s = q)"

text \<open>The offset of the first occurrence of \<open>q\<close> in \<open>s\<close>, if there is one.\<close>

fun first_occurrence :: "string \<Rightarrow> string \<Rightarrow> nat option" where
  "first_occurrence q [] = (if q = [] then Some 0 else None)"
| "first_occurrence q (c # cs) =
     (if startsWith (c # cs) q then Some 0 else map_option Suc (first_occurrence q cs))"

text \<open>\<open>s.indexOf(q, pos)\<close>; \<open>None\<close> is the source's \<open>-1\<close>.\<close>

definition indexOf :: "string \<Rightarrow> string \<Rightarrow> nat \<Rightarrow> nat option" where
  "indexOf s q pos = map_option (\<lambda>k. min pos (length s) + k) (first_occurrence q (drop pos s))"

definition includes_str :: "string \<Rightarrow> string \<Rightarrow> bool" where
  "includes_str s q = (first_occurrence q s \<noteq> None)"

section \<open>JavaScript numbers and values\<close>

text \<open>
  A number is NaN, an infinity or a finite value. Finite values are kept as exact
  rationals: rounding to a double is left out, and so is the sign of zero.
\<close>

datatype number = NaN | NegInf | Fin rat | PosInf

fun num_sub :: "number \<Rightarrow> number \<Rightarrow> number" where
  "num_sub NaN _ = NaN"
| "num_sub _ NaN = NaN"
| "num_sub (Fin a) (Fin b) = Fin (a - b)"
| "num_sub PosInf PosInf = NaN"
| "num_sub NegInf NegInf = NaN"
| "num_sub PosInf _ = PosInf"
| "num_sub NegInf _ = NegInf"
| "num_sub _ PosInf = NegInf"
| "num_sub _ NegInf = PosInf"

fun num_add :: "number \<Rightarrow> number \<Rightarrow> number" where
  "num_add NaN _ = NaN"
| "num_add _ NaN = NaN"
| "num_add (Fin a) (Fin b) = Fin (a + b)"
| "num_add PosInf NegInf = NaN"
| "num_add NegInf PosInf = NaN"
| "num_add PosInf _ = PosInf"
| "num_add NegInf _ = NegInf"
| "num_add _ PosInf = PosInf"
| "num_add _ NegInf = NegInf"

fun num_less :: "number \<Rightarrow> number \<Rightarrow> bool" where
  "num_less NaN _ = False"
| "num_less _ NaN = False"
| "num_less (Fin a) (Fin b) = (a < b)"
| "num_less PosInf _ = False"
| "num_less _ PosInf = True"
| "num_less _ NegInf = False"
| "num_less NegInf _ = True"

definition number_of_nat :: "nat \<Rightarrow> number" where
  "number_of_nat n = Fin (of_nat n)"

datatype jsval =
    JUndefined
  | JNull
  | JBool bool
  | JNumber number
  | JString string
  | JArray "jsval list"
  | JObject "(string \<times> jsval) list"

text \<open>Truthiness, \<open>a || b\<close>, and reading a property.\<close>

fun truthy :: "jsval \<Rightarrow> bool" where
  "truthy JUndefined = False"
| "truthy JNull = False"
| "truthy (JBool b) = b"
| "truthy (JNumber n) = (n \<noteq> NaN \<and> n \<noteq> Fin 0)"
| "truthy (JString s) = (s \<noteq> [])"
| "truthy (JArray _) = True"
| "truthy (JObject _) = True"

definition js_or :: "jsval \<Rightarrow> jsval \<Rightarrow> jsval" where
  "js_or a b = (if truthy a then a else b)"

datatype js_error = TypeError

definition nullish :: "jsval \<Rightarrow> bool" where
  "nullish v = (v = JUndefined \<or> v = JNull)"

text \<open>
  \<open>v.k\<close> for a value that is neither \<open>undefined\<close> nor \<open>null\<close> (there the source
  throws a TypeError, which the callers below write out). None of the names the source
  reads is a property of a string, a number, a boolean or an array.
\<close>

fun get_prop :: "jsval \<Rightarrow> string \<Rightarrow> jsval" where
  "get_prop (JObject kvs) k = (case map_of kvs k of Some v \<Rightarrow> v | None \<Rightarrow> JUndefined)"
| "get_prop _ k = JUndefined"

text \<open>\<open>typeof v === 'object'\<close>, which holds of \<open>null\<close> too.\<close>

definition typeof_object :: "jsval \<Rightarrow> bool" where
  "typeof_object v = (case v of JNull \<Rightarrow> True | JArray _ \<Rightarrow> True | JObject _ \<Rightarrow> True | _ \<Rightarrow> False)"

subsection \<open>parseFloat\<close>

definition is_digit :: "char \<Rightarrow> bool" where
  "is_digit c = (c \<in> set digit_chars)"

definition digit_value :: "char \<Rightarrow> nat" where
  "digit_value c = (case map_of (zip digit_chars [0..<10]) c of Some d \<Rightarrow> d | None \<Rightarrow> 0)"

definition digits_value :: "string \<Rightarrow> nat" where
  "digits_value ds = foldl (\<lambda>acc c. 10 * acc + digit_value c) 0 ds"

definition split_sign :: "string \<Rightarrow> bool \<times> string" where
  "split_sign s =
     (case s of
        [] \<Rightarrow> (False, [])
      | c # cs \<Rightarrow> if c = CHR ''-'' then (True, cs) else if c = CHR ''+'' then (False, cs) else (False, s))"

text \<open>The exponent part \<open>e\<close>, sign, digits at the start of \<open>s\<close>; zero when there is none.\<close>

definition exponent_of :: "string \<Rightarrow> int" where
  "exponent_of s =
     (case s of
        [] \<Rightarrow> 0
      | c # cs \<Rightarrow>
          if c = CHR ''e'' \<or> c = CHR ''E'' then
            (let (neg, r) = split_sign cs; ds = takeWhile is_digit r in
             if ds = [] then 0
             else if neg then - int (digits_value ds) else int (digits_value ds))
          else 0)"

definition scale10 :: "rat \<Rightarrow> int \<Rightarrow> rat" where
  "scale10 m e = (if e \<ge> 0 then m * 10 ^ nat e else m / 10 ^ nat (- e))"

text \<open>
  \<open>parseFloat\<close> of a string: leading white space is skipped and the longest prefix
  that is a decimal literal (or a signed \<open>Infinity\<close>) is its value; \<open>NaN\<close> when no
  prefix is one.
\<close>

definition parseFloat_string :: "string \<Rightarrow> number" where
  "parseFloat_string s =
     (let (neg, u) = split_sign (dropWhile is_space s) in
      if startsWith u ''Infinity'' then (if neg then NegInf else PosInf)
      else
        (let ip = takeWhile is_digit u;
             r1 = drop (length ip) u;
             fp = (case r1 of [] \<Rightarrow> [] | c # cs \<Rightarrow> if c = CHR ''.'' then takeWhile is_digit cs else []);
             r2 = (case r1 of [] \<Rightarrow> [] | c # cs \<Rightarrow> if c = CHR ''.'' then drop (length fp) cs else r1)
         in if ip = [] \<and> fp = [] then NaN
            else
              (let m = of_nat (digits_value ip) + of_nat (digits_value fp) / 10 ^ length fp;
                   v = scale10 m (exponent_of r2)
               in Fin (if neg then - v else v))))"

text \<open>
  \<open>parseFloat\<close> of any value parses the string the value converts to. A number
  prints as a literal that reads back as the same number. An array prints as its elements
  joined by commas, so its value is that of its first element; a boolean, \<open>null\<close>,
  \<open>undefined\<close> and a plain object print as words that start no literal.
\<close>

fun parseFloat :: "jsval \<Rightarrow> number" where
  "parseFloat (JNumber n) = n"
| "parseFloat (JString s) = parseFloat_string s"
| "parseFloat (JArray (x # xs)) = parseFloat x"
| "parseFloat _ = NaN"

function show_nat :: "nat \<Rightarrow> string" where
  "show_nat n =
     (if n < 10 then [digit_chars ! n] else show_nat (n div 10) @ [digit_chars ! (n mod 10)])"
  by pat_completeness auto
termination
  by (relation "measure id") auto

declare show_nat.simps [simp del]

section \<open>Regular expressions of the search engine\<close>

text \<open>
  The search engine builds its patterns from an escaped query between fixed pieces:
  \<open>\b\<close> and a capture group. \<open>RegExp\<close> models the constructor on that fragment: an
  escaped syntax character is a literal, \<open>\b\<close> is the word boundary, parentheses group,
  and any other use of a syntax character is outside the fragment (\<open>None\<close>).
\<close>

definition backslash :: char where
  "backslash = CHR 0x5C"

definition syntax_chars :: string where
  "syntax_chars = ''.*+?^${}()|[]'' @ [backslash]"

text \<open>\<open>string.replace(/[.*+?^${}()|[\]\\]/g, '\\$&')\<close>\<close>

definition escapeRegex :: "string \<Rightarrow> string" where
  "escapeRegex s = concat (map (\<lambda>c. if c \<in> set syntax_chars then [backslash, c] else [c]) s)"

datatype rx_atom = Lit char | WordB | GroupOpen | GroupClose

fun rx_atoms :: "string \<Rightarrow> rx_atom list option" where
  "rx_atoms [] = Some []"
| "rx_atoms [c] =
     (if c = CHR ''('' then Some [GroupOpen]
      else if c = CHR '')'' then Some [GroupClose]
      else if c \<in> set syntax_chars then None
      else Some [Lit c])"
| "rx_atoms (c # d # ds) =
     (if c = backslash then
        (if d = CHR ''b'' then map_option ((#) WordB) (rx_atoms ds)
         else if d \<in> set syntax_chars then map_option ((#) (Lit d)) (rx_atoms ds)
         else None)
      else if c = CHR ''('' then map_option ((#) GroupOpen) (rx_atoms (d # ds))
      else if c = CHR '')'' then map_option ((#) GroupClose) (rx_atoms (d # ds))
      else if c \<in> set syntax_chars then None
      else map_option ((#) (Lit c)) (rx_atoms (d # ds)))"

fun rx_balanced :: "nat \<Rightarrow> rx_atom list \<Rightarrow> bool" where
  "rx_balanced depth [] = (depth = 0)"
| "rx_balanced depth (GroupOpen # as) = rx_balanced (Suc depth) as"
| "rx_balanced depth (GroupClose # as) = (depth > 0 \<and> rx_balanced (depth - 1) as)"
| "rx_balanced depth (_ # as) = rx_balanced depth as"

definition RegExp :: "string \<Rightarrow> rx_atom list option" where
  "RegExp pattern =
     (case rx_atoms pattern of
        None \<Rightarrow> None
      | Some as \<Rightarrow> if rx_balanced 0 as then Some as else None)"

definition is_word_char :: "char \<Rightarrow> bool" where
  "is_word_char c = (c \<in> set (upper_letters @ lower_letters @ digit_chars @ ''_''))"

definition is_word_at :: "char option \<Rightarrow> bool" where
  "is_word_at co = (case co of None \<Rightarrow> False | Some c \<Rightarrow> is_word_char c)"

definition next_char :: "string \<Rightarrow> char option" where
  "next_char s = (case s of [] \<Rightarrow> None | c # _ \<Rightarrow> Some c)"

text \<open>With the \<open>i\<close> flag two characters match when their upper-case forms agree.\<close>

definition char_matches :: "bool \<Rightarrow> char \<Rightarrow> char \<Rightarrow> bool" where
  "char_matches ignoreCase c d = (if ignoreCase then upper_char c = upper_char d else c = d)"

text \<open>
  A match of the atoms at the start of \<open>s\<close>, where \<open>prev\<close> is the character before
  \<open>s\<close> in the whole text; the result is the number of characters the match covers.
\<close>

fun rx_match :: "bool \<Rightarrow> rx_atom list \<Rightarrow> char option \<Rightarrow> string \<Rightarrow> nat option" where
  "rx_match ic [] prev s = Some 0"
| "rx_match ic (Lit c # as) prev [] = None"
| "rx_match ic (Lit c # as) prev (d # s) =
     (if char_matches ic c d then map_option Suc (rx_match ic as (Some d) s) else None)"
| "rx_match ic (WordB # as) prev s =
     (if is_word_at prev \<noteq> is_word_at (next_char s) then rx_match ic as prev s else None)"
| "rx_match ic (GroupOpen # as) prev s = rx_match ic as prev s"
| "rx_match ic (GroupClose # as) prev s = rx_match ic as prev s"

text \<open>
  The text cut at the successive matches of a global (\<open>g\<close>) pattern, left to right, each
  search resuming where the last match ended (one character further after an empty match).
\<close>

datatype piece = Plain string | Matched string

function rx_scan :: "bool \<Rightarrow> rx_atom list \<Rightarrow> char option \<Rightarrow> string \<Rightarrow> piece list" where
  "rx_scan ic as prev s =
     (case rx_match ic as prev s of
        None \<Rightarrow> (case s of [] \<Rightarrow> [] | c # cs \<Rightarrow> Plain [c] # rx_scan ic as (Some c) cs)
      | Some n \<Rightarrow>
          if n = 0 then
            (case s of [] \<Rightarrow> [Matched []]
             | c # cs \<Rightarrow> Matched [] # Plain [c] # rx_scan ic as (Some c) cs)
          else Matched (take n s) # rx_scan ic as (Some (last (take n s))) (drop n s))"
  by pat_completeness auto
termination
proof -
  have covered: "n \<le> length s" if "rx_match ic as prev s = Some n" for ic as prev s n
    using that
    by (induction ic as prev s arbitrary: n rule: rx_match.induct) (auto split: if_splits)
  show ?thesis
    by (relation "measure (\<lambda>(ic, as, prev, s). length s)") (auto dest: covered)
qed

declare rx_scan.simps [simp del]

fun is_matched :: "piece \<Rightarrow> bool" where
  "is_matched (Matched _) = True"
| "is_matched (Plain _) = False"

fun piece_text :: "piece \<Rightarrow> string" where
  "piece_text (Matched m) = m"
| "piece_text (Plain p) = p"

text \<open>\<open>regex.test(text)\<close> on a fresh global pattern: is there a match anywhere.\<close>

definition rx_test :: "bool \<Rightarrow> rx_atom list \<Rightarrow> string \<Rightarrow> bool" where
  "rx_test ic as s = (\<exists>p \<in> set (rx_scan ic as None s). is_matched p)"

text \<open>\<open>text.match(regex)\<close> with the \<open>g\<close> flag: every match, or \<open>null\<close> when there is none.\<close>

definition rx_match_all :: "bool \<Rightarrow> rx_atom list \<Rightarrow> string \<Rightarrow> string list option" where
  "rx_match_all ic as s =
     (let ms = map piece_text (filter is_matched (rx_scan ic as None s))
      in if ms = [] then None else Some ms)"

text \<open>
  \<open>text.replace(regex, replacement)\<close> with the \<open>g\<close> flag; \<open>wrap\<close> builds the
  replacement from the matched text.
\<close>

fun render :: "(string \<Rightarrow> string) \<Rightarrow> piece \<Rightarrow> string" where
  "render wrap (Matched m) = wrap m"
| "render wrap (Plain p) = p"

definition rx_replace :: "bool \<Rightarrow> rx_atom list \<Rightarrow> (string \<Rightarrow> string) \<Rightarrow> string \<Rightarrow> string" where
  "rx_replace ic as wrap s = concat (map (render wrap) (rx_scan ic as None s))"

section \<open>Data model\<close>

text \<open>
  The interfaces of the source. Field names carry a prefix where two interfaces share a
  name. A segment's \<open>timestamp\<close> is a number and its \<open>text\<close> a string in every
  value the extractor builds; \<open>speaker\<close> and \<open>confidence\<close> are copied from loosely
  typed input and stay \<^typ>\<open>jsval\<close>, as do the metadata of an episode.
\<close>

record TranscriptSegment =
  seg_id :: string
  seg_text :: string
  seg_timestamp :: number
  seg_speaker :: jsval
  seg_confidence :: jsval

record Episode =
  ep_id :: string
  ep_title :: jsval
  ep_podcastTitle :: jsval
  ep_duration :: jsval
  ep_publishDate :: jsval
  ep_description :: jsval
  ep_transcript :: "TranscriptSegment list"

record SearchResult =
  segmentId :: string
  episodeId :: string
  res_text :: string
  res_timestamp :: number
  highlightedText :: string

record FileProcessingResult =
  episodes :: "Episode list"
  errors :: "string list"

section \<open>Search engine\<close>

text \<open>
  The two optional flags of \<open>search\<close>; \<open>None\<close> is an absent flag, which the source
  tests as false.
\<close>

record SearchOptions =
  caseSensitive :: "bool option"
  wholeWords :: "bool option"

definition flag :: "bool option \<Rightarrow> bool" where
  "flag b = (b = Some True)"

text \<open>Results are options where the source can throw or loop; \<open>None\<close> is no return.\<close>

definition word_pattern :: "string \<Rightarrow> string" where
  "word_pattern query = [backslash, CHR ''b''] @ escapeRegex query @ [backslash, CHR ''b'']"

definition matchesQuery :: "string \<Rightarrow> string \<Rightarrow> bool option \<Rightarrow> bool option" where
  "matchesQuery text query ww =
     (if flag ww then
        (case RegExp (word_pattern query) of
           None \<Rightarrow> None
         | Some regex \<Rightarrow> Some (rx_test True regex text))
      else Some (includes_str text query))"

text \<open>
  The counting loop of \<open>countMatches\<close>. With an empty query \<open>indexOf\<close> never
  answers \<open>-1\<close> and \<open>pos\<close> never moves: the loop does not end.
\<close>

function count_loop :: "string \<Rightarrow> string \<Rightarrow> nat \<Rightarrow> nat \<Rightarrow> nat option" where
  "count_loop searchText searchQuery pos count =
     (if searchQuery = [] then None
      else (case indexOf searchText searchQuery pos of
              None \<Rightarrow> Some count
            | Some p \<Rightarrow> count_loop searchText searchQuery (p + length searchQuery) (Suc count)))"
  by pat_completeness auto
termination
proof -
  have inside: "k + length q \<le> length s" if "first_occurrence q s = Some k" for q s k
    using that
  proof (induction s arbitrary: k)
    case Nil
    then show ?case by (simp split: if_splits)
  next
    case (Cons c cs)
    show ?case
    proof (cases "startsWith (c # cs) q")
      case True
      then have "length (take (length q) (c # cs)) = length q"
        by (simp add: startsWith_def)
      then have "length q \<le> length (c # cs)"
        unfolding length_take by linarith
      with True Cons.prems show ?thesis by simp
    next
      case False
      with Cons.prems obtain j where "first_occurrence q cs = Some j" "k = Suc j"
        by auto
      with Cons.IH show ?thesis by fastforce
    qed
  qed
  show ?thesis
    apply (relation "measure (\<lambda>(st, sq, pos, count). length st - pos)")
     apply simp
    apply (clarsimp simp: indexOf_def dest!: inside)
    subgoal for st sq pos k
      by (cases sq) (auto simp: min_def)
    done
qed

declare count_loop.simps [simp del]

definition countMatches :: "string \<Rightarrow> string \<Rightarrow> bool option \<Rightarrow> nat option" where
  "countMatches text query ww =
     (let searchText = toLowerCase text; searchQuery = toLowerCase query in
      if flag ww then
        (case RegExp (word_pattern searchQuery) of
           None \<Rightarrow> None
         | Some regex \<Rightarrow>
             (case rx_match_all True regex searchText of
                None \<Rightarrow> Some 0
              | Some matches \<Rightarrow> Some (length matches)))
      else count_loop searchText searchQuery 0 0)"

definition mark_open :: string where
  "mark_open = ''<mark class='' @ [CHR 0x22] @
     ''bg-yellow-200 dark:bg-yellow-600 px-1 rounded'' @ [CHR 0x22] @ ''>''"

definition mark_close :: string where
  "mark_close = ''</mark>''"

text \<open>The replacement \<open><mark ...>$1</mark>\<close>; group 1 encloses the whole pattern.\<close>

definition mark :: "string \<Rightarrow> string" where
  "mark m = mark_open @ m @ mark_close"

definition group_pattern :: "string \<Rightarrow> string" where
  "group_pattern query = ''('' @ escapeRegex query @ '')''"

definition highlightMatches :: "string \<Rightarrow> string \<Rightarrow> bool option \<Rightarrow> string option" where
  "highlightMatches text query cs =
     (if trim query = [] then Some text
      else (case RegExp (group_pattern query) of
              None \<Rightarrow> None
            | Some regex \<Rightarrow> Some (rx_replace (\<not> flag cs) regex mark text)))"

text \<open>
  \<open>Array.prototype.sort(compareFn)\<close>. The sort is stable, so an element moves behind
  another only when the comparator answers a value above zero for the pair; \<open>NaN\<close>
  counts as zero. For a consistent comparator every engine returns this order.
\<close>

fun sort_insert :: "('a \<Rightarrow> 'a \<Rightarrow> number option) \<Rightarrow> 'a \<Rightarrow> 'a list \<Rightarrow> 'a list option" where
  "sort_insert cmp x [] = Some [x]"
| "sort_insert cmp x (y # ys) =
     (case cmp x y of
        None \<Rightarrow> None
      | Some v \<Rightarrow>
          if num_less (Fin 0) v then map_option ((#) y) (sort_insert cmp x ys)
          else Some (x # y # ys))"

fun array_sort :: "('a \<Rightarrow> 'a \<Rightarrow> number option) \<Rightarrow> 'a list \<Rightarrow> 'a list option" where
  "array_sort cmp [] = Some []"
| "array_sort cmp (x # xs) =
     (case array_sort cmp xs of None \<Rightarrow> None | Some ys \<Rightarrow> sort_insert cmp x ys)"

text \<open>The comparator of \<open>search\<close>: more matches first, then the earlier timestamp.\<close>

definition compare_results ::
  "string \<Rightarrow> bool option \<Rightarrow> SearchResult \<Rightarrow> SearchResult \<Rightarrow> number option" where
  "compare_results searchQuery ww a b =
     (case countMatches (res_text a) searchQuery ww of
        None \<Rightarrow> None
      | Some aMatches \<Rightarrow>
          (case countMatches (res_text b) searchQuery ww of
             None \<Rightarrow> None
           | Some bMatches \<Rightarrow>
               if aMatches \<noteq> bMatches then Some (Fin (of_nat bMatches - of_nat aMatches))
               else Some (num_sub (res_timestamp a) (res_timestamp b))))"

text \<open>The body of the inner \<open>forEach\<close>: the results one segment pushes.\<close>

definition search_segment ::
  "string \<Rightarrow> string \<Rightarrow> SearchOptions \<Rightarrow> Episode \<Rightarrow> TranscriptSegment \<Rightarrow> SearchResult list option" where
  "search_segment query searchQuery options episode segment =
     (let text = (if flag (caseSensitive options) then seg_text segment
                  else toLowerCase (seg_text segment)) in
      case matchesQuery text searchQuery (wholeWords options) of
        None \<Rightarrow> None
      | Some False \<Rightarrow> Some []
      | Some True \<Rightarrow>
          (case highlightMatches (seg_text segment) query (caseSensitive options) of
             None \<Rightarrow> None
           | Some h \<Rightarrow>
               Some [\<lparr>segmentId = seg_id segment, episodeId = ep_id episode,
                      res_text = seg_text segment, res_timestamp = seg_timestamp segment,
                      highlightedText = h\<rparr>]))"

text \<open>The two nested \<open>forEach\<close>: the \<open>results\<close> array before it is sorted.\<close>

definition collect_results ::
  "string \<Rightarrow> string \<Rightarrow> SearchOptions \<Rightarrow> Episode list \<Rightarrow> SearchResult list option" where
  "collect_results query searchQuery options eps =
     map_option concat
       (those (concat (map (\<lambda>episode.
          map (search_segment query searchQuery options episode) (ep_transcript episode)) eps)))"

text \<open>
  Arrays are objects of a store, named by their index in it. The engine's private
  \<open>episodes\<close> field holds the reference \<open>setEpisodes\<close> was given; \<open>search\<close> builds
  \<open>results\<close> as a new array, fills it, sorts it in place and returns it.
\<close>

datatype cell = EpisodeArray "Episode list" | ResultArray "SearchResult list"

type_synonym store = "cell list"

record SearchEngine =
  episodes_ref :: nat

definition setEpisodes :: "nat \<Rightarrow> SearchEngine \<Rightarrow> SearchEngine" where
  "setEpisodes r this = this\<lparr>episodes_ref := r\<rparr>"

definition alloc :: "cell \<Rightarrow> store \<Rightarrow> nat \<times> store" where
  "alloc c st = (length st, st @ [c])"

definition read_episodes :: "SearchEngine \<Rightarrow> store \<Rightarrow> Episode list option" where
  "read_episodes this st =
     (if episodes_ref this < length st then
        (case st ! episodes_ref this of EpisodeArray eps \<Rightarrow> Some eps | _ \<Rightarrow> None)
      else None)"

text \<open>
  The result is the reference of the returned array and the store after the call;
  \<open>None\<close> when the call does not return an array.
\<close>

definition search ::
  "string \<Rightarrow> SearchOptions \<Rightarrow> SearchEngine \<Rightarrow> store \<Rightarrow> (nat \<times> store) option" where
  "search query options this st =
     (if trim query = [] then Some (alloc (ResultArray []) st)
      else
        (let searchQuery = (if flag (caseSensitive options) then query else toLowerCase query) in
         case read_episodes this st of
           None \<Rightarrow> None
         | Some eps \<Rightarrow>
             (case collect_results query searchQuery options eps of
                None \<Rightarrow> None
              | Some pushed \<Rightarrow>
                  (let (results, st1) = alloc (ResultArray pushed) st in
                   case array_sort (compare_results searchQuery (wholeWords options)) pushed of
                     None \<Rightarrow> None
                   | Some ordered \<Rightarrow> Some (results, st1[results := ResultArray ordered])))))"

text \<open>What a caller reads from the array \<open>search\<close> returned.\<close>

definition search_results ::
  "string \<Rightarrow> SearchOptions \<Rightarrow> SearchEngine \<Rightarrow> store \<Rightarrow> SearchResult list option" where
  "search_results query options this st =
     (case search query options this st of
        None \<Rightarrow> None
      | Some (r, st') \<Rightarrow> (case st' ! r of ResultArray rs \<Rightarrow> Some rs | _ \<Rightarrow> None))"

section \<open>File parser\<close>

subsection \<open>What the parser is given\<close>

text \<open>
  A parsed XML document is its root element. A file's text is \<open>Inr\<close> of its content,
  or \<open>Inl\<close> of the message of the error that the read is rejected with; the same for the
  text of an archive entry.
\<close>

datatype node = Element string "node list" | TextNode string

record ZipEntry =
  entry_dir :: bool
  entry_text :: "string + string"

record File =
  file_name :: string
  file_size :: nat
  file_type :: string
  file_text :: "string + string"

text \<open>
  The library calls of the source are parameters: \<open>JSON.parse\<close> (\<open>None\<close> when it
  throws), \<open>DOMParser.parseFromString\<close> (which reports an error as a \<open>parsererror\<close>
  element of the document it returns), \<open>JSZip.loadAsync\<close> (the named entries in
  order, or the message of the error thrown), and the values \<open>generateId()\<close> and
  \<open>new Date().toISOString()\<close> read from clock and random source.
\<close>

record runtime =
  JSON_parse :: "string \<Rightarrow> jsval option"
  DOMParser_parse :: "string \<Rightarrow> node"
  JSZip_loadAsync :: "File \<Rightarrow> string + (string \<times> ZipEntry) list"
  generateId :: string
  now_iso :: string

subsection \<open>Document queries\<close>

fun textContent :: "node \<Rightarrow> string" where
  "textContent (TextNode t) = t"
| "textContent (Element tag kids) = concat (map textContent kids)"

text \<open>An element and the elements below it, in document order.\<close>

fun elements_of :: "node \<Rightarrow> node list" where
  "elements_of (TextNode t) = []"
| "elements_of (Element tag kids) = Element tag kids # concat (map elements_of kids)"

definition has_tag :: "string list \<Rightarrow> node \<Rightarrow> bool" where
  "has_tag tags n = (case n of Element tag _ \<Rightarrow> tag \<in> set tags | TextNode _ \<Rightarrow> False)"

text \<open>\<open>xmlDoc.querySelectorAll\<close> for a list of element names.\<close>

definition document_querySelectorAll :: "string list \<Rightarrow> node \<Rightarrow> node list" where
  "document_querySelectorAll tags xmlDoc = filter (has_tag tags) (elements_of xmlDoc)"

text \<open>\<open>element.querySelectorAll\<close>: the matches below the element, itself excluded.\<close>

definition querySelectorAll :: "string list \<Rightarrow> node \<Rightarrow> node list" where
  "querySelectorAll tags n =
     (case n of
        Element _ kids \<Rightarrow> filter (has_tag tags) (concat (map elements_of kids))
      | TextNode _ \<Rightarrow> [])"

subsection \<open>Small helpers\<close>

text \<open>\<open>a || b || ... || z\<close>: the first truthy operand, or the last one.\<close>

definition or_chain :: "jsval list \<Rightarrow> jsval \<Rightarrow> jsval" where
  "or_chain vs z = foldr js_or vs z"

text \<open>\<open>s.split(sep)\<close> for a separator of one character.\<close>

fun split_on :: "char \<Rightarrow> string \<Rightarrow> string list" where
  "split_on sep [] = [[]]"
| "split_on sep (c # cs) =
     (if c = sep then [] # split_on sep cs
      else (case split_on sep cs of [] \<Rightarrow> [[c]] | p # ps \<Rightarrow> (c # p) # ps))"

text \<open>
  \<open>filename.replace(/\.[^/.]+$/, '')\<close>: the last dot and what follows it go, when
  at least one character follows and none of them is a slash.
\<close>

definition strip_extension :: "string \<Rightarrow> string" where
  "strip_extension filename =
     (let ext = rev (takeWhile (\<lambda>c. c \<noteq> CHR ''.'') (rev filename)) in
      if CHR ''.'' \<in> set filename \<and> ext \<noteq> [] \<and> CHR ''/'' \<notin> set ext
      then take (length filename - length ext - 1) filename
      else filename)"

definition segment_name :: "nat \<Rightarrow> string" where
  "segment_name index = ''segment-'' @ show_nat index"

text \<open>A \<open>try\<close> whose \<open>catch\<close> only logs, before \<open>return null\<close>.\<close>

definition catch_null :: "js_error + 'a option \<Rightarrow> 'a option" where
  "catch_null r = (case r of Inl _ \<Rightarrow> None | Inr x \<Rightarrow> x)"

subsection \<open>Segment normalizer\<close>

text \<open>
  The callback of the \<open>forEach\<close> in \<open>extractSegments\<close>: the segment pushed for the
  element at \<open>index\<close>, if one is pushed. A truthy text that is not a string has no
  \<open>trim\<close> method: the call throws.
\<close>

definition segment_at :: "nat \<Rightarrow> jsval \<Rightarrow> js_error + TranscriptSegment option" where
  "segment_at index segment =
     (let is_string = (case segment of JString _ \<Rightarrow> True | _ \<Rightarrow> False);
          is_object = (typeof_object segment \<and> segment \<noteq> JNull);
          text =
            (if is_string then segment
             else if is_object then
               or_chain [get_prop segment ''text'', get_prop segment ''content'',
                         get_prop segment ''transcript'', get_prop segment ''body'',
                         get_prop segment ''message''] (JString [])
             else JString []);
          timestamp =
            (if is_string then number_of_nat (index * 5)
             else if is_object then
               parseFloat
                 (or_chain [get_prop segment ''timestamp'', get_prop segment ''time'',
                            get_prop segment ''start'', get_prop segment ''startTime'']
                    (JNumber (number_of_nat (index * 5))))
             else Fin 0);
          speaker =
            (if is_string then JUndefined
             else if is_object then
               or_chain [get_prop segment ''speaker'', get_prop segment ''name'',
                         get_prop segment ''author''] JUndefined
             else JUndefined)
      in if truthy text then
           (case text of
              JString t \<Rightarrow>
                if trim t \<noteq> [] then
                  Inr (Some \<lparr>seg_id = segment_name index, seg_text = trim t,
                             seg_timestamp = timestamp, seg_speaker = speaker,
                             seg_confidence = get_prop segment ''confidence''\<rparr>)
                else Inr None
            | _ \<Rightarrow> Inl TypeError)
         else Inr None)"

text \<open>A \<open>forEach\<close> whose callback pushes at most one element; a throw ends it.\<close>

fun forEach_push :: "(js_error + 'a option) list \<Rightarrow> js_error + 'a list" where
  "forEach_push [] = Inr []"
| "forEach_push (r # rs) =
     (case r of
        Inl e \<Rightarrow> Inl e
      | Inr x \<Rightarrow>
          (case forEach_push rs of
             Inl e \<Rightarrow> Inl e
           | Inr xs \<Rightarrow> Inr ((case x of None \<Rightarrow> [] | Some y \<Rightarrow> [y]) @ xs)))"

definition extractSegments :: "jsval \<Rightarrow> js_error + TranscriptSegment list" where
  "extractSegments data =
     (if nullish data then Inl TypeError
      else
        (case or_chain [get_prop data ''transcript'', get_prop data ''segments'',
                        get_prop data ''lines'', get_prop data ''transcriptSegments'',
                        get_prop data ''items''] (JArray []) of
           JArray transcriptData \<Rightarrow>
             forEach_push (map (\<lambda>(index, segment). segment_at index segment)
                             (enumerate 0 transcriptData))
         | _ \<Rightarrow> Inr []))"

definition calculateDuration :: "TranscriptSegment list \<Rightarrow> number" where
  "calculateDuration segments =
     (if segments = [] then Fin 0 else num_add (seg_timestamp (last segments)) (Fin 30))"

subsection \<open>Structured-data detector\<close>

definition extractApplePodcastEpisode ::
  "runtime \<Rightarrow> jsval \<Rightarrow> string \<Rightarrow> js_error + Episode option" where
  "extractApplePodcastEpisode rt data filename =
     (let episodeData = or_chain [get_prop data ''MTEpisode'', get_prop data ''episode''] data in
      if nullish data \<or> nullish episodeData then Inl TypeError
      else
        (let transcriptData =
               or_chain [get_prop episodeData ''transcript'',
                         get_prop episodeData ''transcriptSegments'',
                         get_prop episodeData ''segments''] (get_prop episodeData ''lines'')
         in if \<not> truthy transcriptData then Inr None
            else
              (case extractSegments (JObject [(''segments'', transcriptData)]) of
                 Inl e \<Rightarrow> Inl e
               | Inr segments \<Rightarrow>
                   if segments = [] then Inr None
                   else Inr (Some
                     \<lparr>ep_id = generateId rt,
                      ep_title = or_chain [get_prop episodeData ''title'',
                                           get_prop episodeData ''name''] (JString filename),
                      ep_podcastTitle =
                        or_chain [get_prop episodeData ''podcastTitle'',
                                  get_prop episodeData ''showTitle'',
                                  get_prop episodeData ''podcast''] (JString ''Unknown Podcast''),
                      ep_duration = js_or (get_prop episodeData ''duration'')
                                          (JNumber (calculateDuration segments)),
                      ep_publishDate =
                        or_chain [get_prop episodeData ''publishDate'',
                                  get_prop episodeData ''date'',
                                  get_prop episodeData ''pubDate''] (JString (now_iso rt)),
                      ep_description = js_or (get_prop episodeData ''description'')
                                             (get_prop episodeData ''summary''),
                      ep_transcript = segments\<rparr>))))"

text \<open>\<open>Object.keys(data)\<close> in the first line throws for \<open>undefined\<close> and \<open>null\<close>.\<close>

definition extractEpisodeFromData ::
  "runtime \<Rightarrow> jsval \<Rightarrow> string \<Rightarrow> js_error + Episode option" where
  "extractEpisodeFromData rt data filename =
     (if nullish data then Inl TypeError
      else
        (case extractSegments data of
           Inl e \<Rightarrow> Inl e
         | Inr segments \<Rightarrow>
             if segments = [] then Inr None
             else Inr (Some
               \<lparr>ep_id = generateId rt,
                ep_title = or_chain [get_prop data ''title'', get_prop data ''episodeTitle'',
                                     get_prop data ''name''] (JString filename),
                ep_podcastTitle =
                  or_chain [get_prop data ''podcastTitle'', get_prop data ''showTitle'',
                            get_prop data ''podcast''] (JString ''Unknown Podcast''),
                ep_duration = js_or (get_prop data ''duration'')
                                    (JNumber (calculateDuration segments)),
                ep_publishDate =
                  or_chain [get_prop data ''publishDate'', get_prop data ''date'',
                            get_prop data ''pubDate''] (JString (now_iso rt)),
                ep_description = js_or (get_prop data ''description'') (get_prop data ''summary''),
                ep_transcript = segments\<rparr>)))"

definition createEpisodeFromSegments ::
  "runtime \<Rightarrow> jsval list \<Rightarrow> string \<Rightarrow> js_error + Episode option" where
  "createEpisodeFromSegments rt segments filename =
     (case extractSegments (JObject [(''segments'', JArray segments)]) of
        Inl e \<Rightarrow> Inl e
      | Inr transcriptSegments \<Rightarrow>
          if transcriptSegments = [] then Inr None
          else Inr (Some
            \<lparr>ep_id = generateId rt,
             ep_title = JString (strip_extension filename),
             ep_podcastTitle = JString ''Imported Podcast'',
             ep_duration = JNumber (calculateDuration transcriptSegments),
             ep_publishDate = JString (now_iso rt),
             ep_description = JUndefined,
             ep_transcript = transcriptSegments\<rparr>))"

text \<open>\<open>xs[0]\<close>, which is \<open>undefined\<close> for the empty array.\<close>

definition first_item :: "jsval list \<Rightarrow> jsval" where
  "first_item xs = (case xs of [] \<Rightarrow> JUndefined | x # _ \<Rightarrow> x)"

text \<open>The values of \<open>Object.entries(data)\<close>, in its order.\<close>

definition entry_values :: "jsval \<Rightarrow> jsval list" where
  "entry_values data =
     (case data of
        JObject kvs \<Rightarrow> map snd kvs
      | JArray xs \<Rightarrow> xs
      | JString str \<Rightarrow> map (\<lambda>c. JString [c]) str
      | _ \<Rightarrow> [])"

text \<open>The last loop of \<open>parseJsonContent\<close>, over the property values.\<close>

fun scan_properties :: "runtime \<Rightarrow> string \<Rightarrow> jsval list \<Rightarrow> js_error + Episode option" where
  "scan_properties rt filename [] = Inr None"
| "scan_properties rt filename (v # rest) =
     (case v of
        JArray (firstItem # items) \<Rightarrow>
          if typeof_object firstItem then
            (if nullish firstItem then Inl TypeError
             else if truthy (js_or (get_prop firstItem ''text'') (get_prop firstItem ''content''))
             then createEpisodeFromSegments rt (firstItem # items) filename
             else scan_properties rt filename rest)
          else scan_properties rt filename rest
      | _ \<Rightarrow> scan_properties rt filename rest)"

text \<open>The body of the \<open>try\<close> in \<open>parseJsonContent\<close>, after \<open>JSON.parse\<close>.\<close>

definition parse_json_data :: "runtime \<Rightarrow> jsval \<Rightarrow> string \<Rightarrow> js_error + Episode option" where
  "parse_json_data rt data filename =
     (if nullish data then Inl TypeError
      else if truthy (js_or (get_prop data ''MTEpisode'') (get_prop data ''episode''))
      then extractApplePodcastEpisode rt data filename
      else
        (case (case get_prop data ''episodes'' of
                 JArray eps \<Rightarrow> extractEpisodeFromData rt (first_item eps) filename
               | _ \<Rightarrow> Inr None) of
           Inl e \<Rightarrow> Inl e
         | Inr (Some episode) \<Rightarrow> Inr (Some episode)
         | Inr None \<Rightarrow>
             if truthy (or_chain [get_prop data ''transcript'', get_prop data ''segments'']
                          (get_prop data ''lines''))
             then extractEpisodeFromData rt data filename
             else
               (case data of
                  JArray (d0 # ds) \<Rightarrow>
                    if nullish d0 then Inl TypeError
                    else if truthy (js_or (get_prop d0 ''text'') (get_prop d0 ''content''))
                    then createEpisodeFromSegments rt (d0 # ds) filename
                    else if truthy (js_or (get_prop d0 ''transcript'') (get_prop d0 ''segments''))
                    then extractEpisodeFromData rt d0 filename
                    else scan_properties rt filename (entry_values data)
                | _ \<Rightarrow> scan_properties rt filename (entry_values data))))"

definition parseJsonContent :: "runtime \<Rightarrow> string \<Rightarrow> string \<Rightarrow> Episode option" where
  "parseJsonContent rt content filename =
     (case JSON_parse rt content of
        None \<Rightarrow> None
      | Some data \<Rightarrow> catch_null (parse_json_data rt data filename))"

subsection \<open>Property-list detector\<close>

text \<open>
  The four \<open>metadataPatterns\<close>, each written as the test its expression makes:
  \<open>/^https?:\/\//\<close>, \<open>/^\d+$/\<close>, \<open>/^[A-Z_]+$/\<close> and \<open>/^\w+\.\w+$/\<close>.
\<close>

definition url_pattern :: "string \<Rightarrow> bool" where
  "url_pattern text = (startsWith text ''http://'' \<or> startsWith text ''https://'')"

definition digits_pattern :: "string \<Rightarrow> bool" where
  "digits_pattern text = (text \<noteq> [] \<and> list_all is_digit text)"

definition caps_pattern :: "string \<Rightarrow> bool" where
  "caps_pattern text = (text \<noteq> [] \<and> list_all (\<lambda>c. c \<in> set upper_letters \<or> c = CHR ''_'') text)"

definition dotted_pattern :: "string \<Rightarrow> bool" where
  "dotted_pattern text =
     (let w1 = takeWhile is_word_char text in
      w1 \<noteq> [] \<and>
      (case drop (length w1) text of
         [] \<Rightarrow> False
       | c # w2 \<Rightarrow> c = CHR ''.'' \<and> w2 \<noteq> [] \<and> list_all is_word_char w2))"

definition looksLikeTranscriptText :: "string \<Rightarrow> bool" where
  "looksLikeTranscriptText text =
     (\<not> (url_pattern text \<or> digits_pattern text \<or> caps_pattern text \<or> dotted_pattern text)
      \<and> length (split_on CHR '' '' text) > 3)"

text \<open>The segment object one \<open>dict\<close> element pushes, if it pushes one.\<close>

definition dict_segment :: "nat \<Rightarrow> node \<Rightarrow> jsval option" where
  "dict_segment dictIndex dict =
     (let keys = querySelectorAll [''key''] dict;
          vals = querySelectorAll [''string'', ''real'', ''integer''] dict;
          assigned =
            filter (\<lambda>(key, v). key \<noteq> [] \<and> v \<noteq> [])
              (map (\<lambda>(k, v). (toLowerCase (textContent k), textContent v)) (zip keys vals));
          segmentData = JObject (rev (map (\<lambda>(key, v). (key, JString v)) assigned));
          text = or_chain [get_prop segmentData ''text'', get_prop segmentData ''content'']
                   (get_prop segmentData ''transcript'')
      in if truthy text then
           Some (JObject
             [(''id'', JString (segment_name dictIndex)),
              (''text'', text),
              (''timestamp'',
                 JNumber (parseFloat
                   (or_chain [get_prop segmentData ''timestamp'', get_prop segmentData ''time'']
                      (JNumber (number_of_nat (dictIndex * 5)))))),
              (''speaker'', js_or (get_prop segmentData ''speaker'') (get_prop segmentData ''name''))])
         else None)"

text \<open>The object \<open>{id, text, timestamp}\<close> the two passes over \<open>string\<close> elements push.\<close>

definition text_segment :: "nat \<Rightarrow> string \<Rightarrow> jsval" where
  "text_segment index text =
     JObject [(''id'', JString (segment_name index)), (''text'', JString text),
              (''timestamp'', JNumber (number_of_nat (index * 5)))]"

definition dict_scan :: "node \<Rightarrow> jsval list" where
  "dict_scan xmlDoc =
     concat (map (\<lambda>(dictIndex, dict). case dict_segment dictIndex dict of None \<Rightarrow> [] | Some seg \<Rightarrow> [seg])
                 (enumerate 0 (document_querySelectorAll [''dict''] xmlDoc)))"

definition string_scan :: "(string \<Rightarrow> bool) \<Rightarrow> node \<Rightarrow> jsval list" where
  "string_scan keep xmlDoc =
     concat (map (\<lambda>(index, element).
                    (let text = trim (textContent element) in
                     if text \<noteq> [] \<and> length text > 20 \<and> keep text then [text_segment index text]
                     else []))
                 (enumerate 0 (document_querySelectorAll [''string''] xmlDoc)))"

definition extractTranscriptFromPlist :: "node \<Rightarrow> jsval list option" where
  "extractTranscriptFromPlist xmlDoc =
     (let segments = dict_scan xmlDoc;
          segments = (if segments = [] then string_scan looksLikeTranscriptText xmlDoc
                      else segments)
      in if length segments > 0 then Some segments else None)"

definition parsePlistContent :: "runtime \<Rightarrow> string \<Rightarrow> string \<Rightarrow> Episode option" where
  "parsePlistContent rt content filename =
     (let xmlDoc = DOMParser_parse rt content in
      if document_querySelectorAll [''parsererror''] xmlDoc \<noteq> [] then None
      else
        (case extractTranscriptFromPlist xmlDoc of
           Some transcriptData \<Rightarrow>
             catch_null (createEpisodeFromSegments rt transcriptData filename)
         | None \<Rightarrow>
             (let textSegments = string_scan (\<lambda>text. True) xmlDoc in
              if length textSegments > 0
              then catch_null (createEpisodeFromSegments rt textSegments filename)
              else None)))"

subsection \<open>Free-text heuristic\<close>

definition transcriptIndicators :: "string list" where
  "transcriptIndicators =
     [''transcript'', ''speaker'', ''timestamp'', ''time'', ''text'', ''dialogue'', ''conversation'']"

definition indicatorCount :: "string \<Rightarrow> nat" where
  "indicatorCount content =
     length (filter (\<lambda>indicator. includes_str (toLowerCase content) indicator)
               transcriptIndicators)"

definition looksLikeTranscript :: "string \<Rightarrow> bool" where
  "looksLikeTranscript content = (indicatorCount content \<ge> 2)"

definition text_lines :: "string \<Rightarrow> string list" where
  "text_lines content = filter (\<lambda>line. length (trim line) > 0) (split_on CHR 0x0A content)"

definition line_segments :: "string list \<Rightarrow> TranscriptSegment list" where
  "line_segments lines =
     concat (map (\<lambda>(index, line).
                    (let trimmedLine = trim line in
                     if length trimmedLine > 10 then
                       [\<lparr>seg_id = segment_name index, seg_text = trimmedLine,
                         seg_timestamp = number_of_nat (index * 5), seg_speaker = JUndefined,
                         seg_confidence = JUndefined\<rparr>]
                     else []))
                 (enumerate 0 lines))"

definition createEpisodeFromText :: "runtime \<Rightarrow> string \<Rightarrow> string \<Rightarrow> Episode" where
  "createEpisodeFromText rt content filename =
     (let segments = line_segments (text_lines content) in
      \<lparr>ep_id = generateId rt,
       ep_title = JString (strip_extension filename),
       ep_podcastTitle = JString ''Imported Podcast'',
       ep_duration = JNumber (number_of_nat (length segments * 5)),
       ep_publishDate = JString (now_iso rt),
       ep_description = JUndefined,
       ep_transcript = segments\<rparr>)"

subsection \<open>Files, archives and batches\<close>

text \<open>A rejected read is caught by the outer \<open>try\<close> of \<open>processGenericFile\<close>.\<close>

definition processGenericFile :: "runtime \<Rightarrow> File \<Rightarrow> Episode option" where
  "processGenericFile rt file =
     (case file_text file of
        Inl _ \<Rightarrow> None
      | Inr content \<Rightarrow>
          (case parseJsonContent rt content (file_name file) of
             Some episode \<Rightarrow> Some episode
           | None \<Rightarrow>
               (case parsePlistContent rt content (file_name file) of
                  Some episode \<Rightarrow> Some episode
                | None \<Rightarrow>
                    if length content > 100 \<and> looksLikeTranscript content
                    then Some (createEpisodeFromText rt content (file_name file))
                    else None)))"

text \<open>
  \<open>processJsonFile\<close> and \<open>processPlistFile\<close> have no \<open>try\<close> of their own: a
  rejected read reaches the caller, as \<open>Inl\<close> of its message.
\<close>

definition processJsonFile :: "runtime \<Rightarrow> File \<Rightarrow> string + Episode option" where
  "processJsonFile rt file =
     (case file_text file of
        Inl message \<Rightarrow> Inl message
      | Inr content \<Rightarrow> Inr (parseJsonContent rt content (file_name file)))"

definition processPlistFile :: "runtime \<Rightarrow> File \<Rightarrow> string + Episode option" where
  "processPlistFile rt file =
     (case file_text file of
        Inl message \<Rightarrow> Inl message
      | Inr content \<Rightarrow> Inr (parsePlistContent rt content (file_name file)))"

definition no_result :: FileProcessingResult where
  "no_result = \<lparr>episodes = [], errors = []\<rparr>"

definition add_results :: "FileProcessingResult \<Rightarrow> FileProcessingResult \<Rightarrow> FileProcessingResult" where
  "add_results a b = \<lparr>episodes = episodes a @ episodes b, errors = errors a @ errors b\<rparr>"

definition found :: "Episode option \<Rightarrow> FileProcessingResult" where
  "found episode =
     \<lparr>episodes = (case episode of None \<Rightarrow> [] | Some e \<Rightarrow> [e]), errors = []\<rparr>"

definition failed :: "string \<Rightarrow> FileProcessingResult" where
  "failed message = \<lparr>episodes = [], errors = [message]\<rparr>"

text \<open>What one entry of an archive adds to the result of \<open>processZipFile\<close>.\<close>

definition process_entry :: "runtime \<Rightarrow> string \<Rightarrow> ZipEntry \<Rightarrow> FileProcessingResult" where
  "process_entry rt filename zipEntry =
     (if entry_dir zipEntry then no_result
      else
        (case entry_text zipEntry of
           Inl message \<Rightarrow> failed (''Error processing '' @ filename @ '': '' @ message)
         | Inr content \<Rightarrow>
             if endsWith filename ''.json'' then found (parseJsonContent rt content filename)
             else if endsWith filename ''.plist'' \<or> endsWith filename ''.xml''
             then found (parsePlistContent rt content filename)
             else if includes_str filename ''transcript'' \<or> looksLikeTranscript content then
               (let episode = createEpisodeFromText rt content filename in
                if length (ep_transcript episode) > 0 then found (Some episode) else no_result)
             else no_result))"

definition processZipFile :: "runtime \<Rightarrow> File \<Rightarrow> FileProcessingResult" where
  "processZipFile rt file =
     (case JSZip_loadAsync rt file of
        Inl message \<Rightarrow> failed (''Error reading ZIP file: '' @ message)
      | Inr entries \<Rightarrow>
          foldl (\<lambda>result (filename, zipEntry). add_results result (process_entry rt filename zipEntry))
                no_result entries)"

definition directory_message :: "string \<Rightarrow> string" where
  "directory_message name =
     ''Cannot process directory '' @ [CHR 0x22] @ name @ [CHR 0x22] @
     ''. Please select individual files instead.''"

definition sqlite_message :: "string \<Rightarrow> string" where
  "sqlite_message name =
     ''SQLite files ('' @ name @ '') cannot be processed in the browser. '' @
     ''Please look for JSON or PLIST files in the podcast data folder.''"

text \<open>The \<open>catch\<close> of the loop body of \<open>processFiles\<close>.\<close>

definition caught :: "string \<Rightarrow> string + Episode option \<Rightarrow> FileProcessingResult" where
  "caught name r =
     (case r of
        Inl message \<Rightarrow> failed (''Error processing '' @ name @ '': '' @ message)
      | Inr episode \<Rightarrow> found episode)"

text \<open>What one file of the batch adds to the result: one turn of the loop.\<close>

definition process_file :: "runtime \<Rightarrow> File \<Rightarrow> FileProcessingResult" where
  "process_file rt file =
     (if file_type file = [] \<and> file_size file = 0 then failed (directory_message (file_name file))
      else if endsWith (file_name file) ''.zip'' then processZipFile rt file
      else if endsWith (file_name file) ''.json'' then caught (file_name file) (processJsonFile rt file)
      else if endsWith (file_name file) ''.plist'' \<or> endsWith (file_name file) ''.xml''
      then caught (file_name file) (processPlistFile rt file)
      else if endsWith (file_name file) ''.sqlite'' \<or> endsWith (file_name file) ''.db''
      then failed (sqlite_message (file_name file))
      else if includes_str (file_name file) ''transcript'' \<or> includes_str (file_name file) ''Transcript''
      then found (processGenericFile rt file)
      else found (processGenericFile rt file))"

definition processFiles :: "runtime \<Rightarrow> File list \<Rightarrow> FileProcessingResult" where
  "processFiles rt files =
     foldl (\<lambda>result file. add_results result (process_file rt file)) no_result files"

section \<open>Notions the properties are stated with\<close>

text \<open>
  Highlighting as the specification words it: every occurrence of the query in the
  text, found from left to right and each one from where the previous one ended, is
  wrapped in the markup; the rest of the text is copied. An occurrence is a stretch of
  the text equal to the query, up to letter case when \<open>ci\<close> is set.
\<close>

definition occurs_here :: "bool \<Rightarrow> string \<Rightarrow> string \<Rightarrow> bool" where
  "occurs_here ci q s =
     (length q \<le> length s \<and>
      (if ci then toLowerCase (take (length q) s) = toLowerCase q else take (length q) s = q))"

function wrap_occurrences :: "bool \<Rightarrow> string \<Rightarrow> string \<Rightarrow> string" where
  "wrap_occurrences ci q [] = []"
| "wrap_occurrences ci q (c # cs) =
     (if q \<noteq> [] \<and> occurs_here ci q (c # cs)
      then mark (take (length q) (c # cs)) @ wrap_occurrences ci q (drop (length q) (c # cs))
      else c # wrap_occurrences ci q cs)"
  by pat_completeness auto
termination
  by (relation "measure (\<lambda>(ci, q, s). length s)") (auto simp: neq_Nil_conv)










text \<open>
  Runtimes for concrete inputs. The first is what the libraries answer on a payload that
  is neither JSON nor XML nor an archive; the second parses every payload to the given
  document.
\<close>

definition plain_text_runtime :: runtime where
  "plain_text_runtime =
     \<lparr>JSON_parse = (\<lambda>content. None),
      DOMParser_parse = (\<lambda>content. Element ''parsererror'' [TextNode ''error'']),
      JSZip_loadAsync = (\<lambda>file. Inl ''not a zip file''),
      generateId = ''episode-0-abc'',
      now_iso = ''2024-01-01T00:00:00.000Z''\<rparr>"

definition document_runtime :: "node \<Rightarrow> runtime" where
  "document_runtime xmlDoc = plain_text_runtime\<lparr>DOMParser_parse := (\<lambda>content. xmlDoc)\<rparr>"

text \<open>
  The objects that the two passes over \<open>string\<close> elements push: a trimmed, non-empty
  text under \<open>text\<close>; and the text such an object carries.
\<close>

definition is_text_segment :: "jsval \<Rightarrow> bool" where
  "is_text_segment obj = (\<exists>i t. obj = text_segment i t \<and> trim t = t \<and> t \<noteq> [])"

definition obj_text :: "jsval \<Rightarrow> string" where
  "obj_text obj = (case get_prop obj ''text'' of JString t \<Rightarrow> t | _ \<Rightarrow> [])"


text \<open>Values for concrete inputs of the search engine.\<close>

definition a_segment :: "string \<Rightarrow> string \<Rightarrow> number \<Rightarrow> TranscriptSegment" where
  "a_segment name line seconds =
     \<lparr>seg_id = name, seg_text = line, seg_timestamp = seconds, seg_speaker = JUndefined,
      seg_confidence = JUndefined\<rparr>"

definition an_episode :: "string \<Rightarrow> TranscriptSegment list \<Rightarrow> Episode" where
  "an_episode name segments =
     \<lparr>ep_id = name, ep_title = JString name, ep_podcastTitle = JString ''Imported Podcast'',
      ep_duration = JNumber (calculateDuration segments),
      ep_publishDate = JString ''2024-01-01T00:00:00.000Z'', ep_description = JUndefined,
      ep_transcript = segments\<rparr>"


definition engine_at :: "nat \<Rightarrow> SearchEngine" where
  "engine_at r = setEpisodes r \<lparr>episodes_ref = 0\<rparr>"

definition default_options :: SearchOptions where
  "default_options = \<lparr>caseSensitive = None, wholeWords = None\<rparr>"

section \<open>Properties\<close>

subsection \<open>Batches\<close>

lemma endsWith_last: "endsWith s q \<Longrightarrow> q \<noteq> [] \<Longrightarrow> last s = last q"
  unfolding endsWith_def
  by (metis append_take_drop_id last_appendR)

lemma processFiles_append:
  "processFiles rt (files @ rest) = add_results (processFiles rt files) (processFiles rt rest)"
proof (induction rest rule: rev_induct)
  case Nil
  then show ?case by (simp add: processFiles_def add_results_def no_result_def)
next
  case (snoc f rest)
  then show ?case
    by (simp add: processFiles_def add_results_def flip: append_assoc)
qed

lemma processFiles_single: "processFiles rt [f] = process_file rt f"
  by (simp add: processFiles_def add_results_def no_result_def)

lemma first_occurrence_here: "first_occurrence q (q @ b) = Some 0"
proof (cases "q @ b")
  case Nil
  then show ?thesis by simp
next
  case (Cons c cs)
  have "startsWith (q @ b) q" by (simp add: startsWith_def)
  then show ?thesis unfolding Cons by simp
qed

lemma first_occurrence_found: "first_occurrence q (a @ q @ b) \<noteq> None"
  by (induction a) (auto simp: first_occurrence_here)

text \<open>
  C8, amended. A file whose name ends in \<open>.sqlite\<close> or \<open>.db\<close> and that is not
  taken for a directory (empty type together with size zero) adds no episode and exactly
  one error, the SQLite message, which contains the file's name and says that the file
  cannot be processed. The result is the same whatever the file's text and whatever the
  libraries would answer, so nothing is read; the files before and after it in the batch
  are processed as they are without it.
\<close>

theorem sqlite_file_reported:
  assumes "endsWith (file_name f) ''.sqlite'' \<or> endsWith (file_name f) ''.db''"
    and "\<not> (file_type f = [] \<and> file_size f = 0)"
  shows "process_file rt f = \<lparr>episodes = [], errors = [sqlite_message (file_name f)]\<rparr>
       \<and> includes_str (sqlite_message (file_name f)) (file_name f)
       \<and> includes_str (sqlite_message (file_name f)) ''cannot be processed''
       \<and> process_file rt' (f\<lparr>file_text := t\<rparr>) = process_file rt f
       \<and> processFiles rt (before @ f # after) =
           add_results (processFiles rt before)
             (add_results \<lparr>episodes = [], errors = [sqlite_message (file_name f)]\<rparr>
                (processFiles rt after))"
proof -
  have no_zip: "\<not> endsWith (file_name f) ''.zip''"
    and no_json: "\<not> endsWith (file_name f) ''.json''"
    and no_plist: "\<not> endsWith (file_name f) ''.plist''"
    and no_xml: "\<not> endsWith (file_name f) ''.xml''"
    using assms(1) by (auto dest!: endsWith_last)
  have one: "process_file rt f = \<lparr>episodes = [], errors = [sqlite_message (file_name f)]\<rparr>"
    using assms no_zip no_json no_plist no_xml
    by (auto simp: process_file_def failed_def)
  have same: "process_file rt' (f\<lparr>file_text := t\<rparr>) = process_file rt f"
    using assms no_zip no_json no_plist no_xml
    by (auto simp: process_file_def failed_def)
  have named: "includes_str (sqlite_message (file_name f)) (file_name f)"
    unfolding includes_str_def sqlite_message_def
    using first_occurrence_found[of "file_name f" "''SQLite files (''"] by simp
  have says: "includes_str (sqlite_message (file_name f)) ''cannot be processed''"
    unfolding includes_str_def sqlite_message_def
    using first_occurrence_found[of "''cannot be processed''"
            "''SQLite files ('' @ file_name f @ '') ''"]
    by simp
  have batch: "processFiles rt (before @ f # after) =
           add_results (processFiles rt before)
             (add_results (process_file rt f) (processFiles rt after))"
    using processFiles_append[of rt before "[f] @ after"] processFiles_append[of rt "[f]" after]
    by (simp add: processFiles_single)
  show ?thesis using one same named says batch by simp
qed

theorem sqlite_file_reported_witness:
  "process_file plain_text_runtime
     \<lparr>file_name = ''Library.sqlite'', file_size = 4096, file_type = '''',
      file_text = Inr ''SQLite format 3''\<rparr>
   = \<lparr>episodes = [], errors = [sqlite_message ''Library.sqlite'']\<rparr>"
  using sqlite_file_reported[of "\<lparr>file_name = ''Library.sqlite'', file_size = 4096,
          file_type = '''', file_text = Inr ''SQLite format 3''\<rparr>" plain_text_runtime]
  by (simp add: endsWith_def)

text \<open>
  C8 as stated fails for an empty database file with no declared type: the directory
  test comes first in the loop, and its message does not mention SQLite.
\<close>

theorem sqlite_empty_file_counterexample:
  "process_file plain_text_runtime
      \<lparr>file_name = ''a.db'', file_size = 0, file_type = '''', file_text = Inr ''''\<rparr>
    = \<lparr>episodes = [], errors = [directory_message ''a.db'']\<rparr>
   \<and> \<not> includes_str (directory_message ''a.db'') ''SQLite''"
  by (simp add: process_file_def failed_def includes_str_def directory_message_def startsWith_def)


subsection \<open>Free-text heuristic\<close>

lemma plain_text_json: "parseJsonContent plain_text_runtime content name = None"
  by (simp add: parseJsonContent_def plain_text_runtime_def)

lemma plain_text_plist: "parsePlistContent plain_text_runtime content name = None"
  by (simp add: parsePlistContent_def plain_text_runtime_def document_querySelectorAll_def
        has_tag_def)

text \<open>
  C7, amended. A payload reaches the free-text test of the single-file path,
  \<open>processGenericFile\<close>, when it has been read and neither the structured-data
  detector nor the property-list detector made an episode of it. With at least two of
  the keywords in it, such a payload of exactly 100 characters is rejected (no
  episode), and one of 101 characters is accepted: the episode built from its lines is
  returned.
\<close>

theorem free_text_threshold:
  assumes "file_text f = Inr content"
    and "parseJsonContent rt content (file_name f) = None"
    and "parsePlistContent rt content (file_name f) = None"
    and "indicatorCount content \<ge> 2"
  shows "(length content = 100 \<longrightarrow> processGenericFile rt f = None) \<and>
         (length content = 101 \<longrightarrow>
            processGenericFile rt f = Some (createEpisodeFromText rt content (file_name f)))"
  using assms by (simp add: processGenericFile_def looksLikeTranscript_def)

theorem free_text_threshold_witness:
  "processGenericFile plain_text_runtime
     \<lparr>file_name = ''notes.txt'', file_size = 100, file_type = ''text/plain'',
      file_text = Inr ''time text time text time text time text time text time text time text time text time text time text ''\<rparr> = None
   \<and> processGenericFile plain_text_runtime
     \<lparr>file_name = ''notes.txt'', file_size = 101, file_type = ''text/plain'',
      file_text = Inr ''time text time text time text time text time text time text time text time text time text time text x''\<rparr>
     = Some (createEpisodeFromText plain_text_runtime ''time text time text time text time text time text time text time text time text time text time text x'' ''notes.txt'')"
proof -
  let ?c = "''time text time text time text time text time text time text time text time text time text time text ''"
  let ?d = "''time text time text time text time text time text time text time text time text time text time text x''"
  let ?f = "\<lparr>file_name = ''notes.txt'', file_size = 100, file_type = ''text/plain'',
             file_text = Inr ?c\<rparr>"
  let ?g = "\<lparr>file_name = ''notes.txt'', file_size = 101, file_type = ''text/plain'',
             file_text = Inr ?d\<rparr>"
  have c: "indicatorCount ?c \<ge> 2" "length ?c = 100"
    by code_simp+
  have d: "indicatorCount ?d \<ge> 2" "length ?d = 101"
    by code_simp+
  have f: "file_text ?f = Inr ?c" "file_name ?f = ''notes.txt''"
    by simp_all
  have g: "file_text ?g = Inr ?d" "file_name ?g = ''notes.txt''"
    by simp_all
  have "processGenericFile plain_text_runtime ?f = None"
    using free_text_threshold[OF f(1) plain_text_json plain_text_plist c(1)] c(2) by blast
  moreover have "processGenericFile plain_text_runtime ?g
      = Some (createEpisodeFromText plain_text_runtime ?d (file_name ?g))"
    using free_text_threshold[OF g(1) plain_text_json plain_text_plist d(1)] d(2) by blast
  ultimately show ?thesis
    unfolding g(2) by (rule conjI)
qed

text \<open>
  C7 as stated fails for the entries of an archive: \<open>processZipFile\<close> hands an
  entry to \<open>createEpisodeFromText\<close> when its name has \<open>transcript\<close> in it or
  \<open>looksLikeTranscript\<close> accepts its text, and tests no length. The payload of 100
  characters with two keywords, which the single-file path rejects, makes an episode
  with one segment as an entry of an archive.
\<close>

theorem archive_entry_counterexample:
  "length ''time text time text time text time text time text time text time text time text time text time text '' = 100
   \<and> indicatorCount ''time text time text time text time text time text time text time text time text time text time text '' = 2
   \<and> map (\<lambda>e. length (ep_transcript e))
        (episodes (process_entry plain_text_runtime ''notes.txt''
           \<lparr>entry_dir = False, entry_text = Inr ''time text time text time text time text time text time text time text time text time text time text ''\<rparr>)) = [1]
   \<and> map (\<lambda>e. length (ep_transcript e))
        (episodes (processFiles
           (plain_text_runtime\<lparr>JSZip_loadAsync := (\<lambda>file. Inr [(''notes.txt'',
               \<lparr>entry_dir = False, entry_text = Inr ''time text time text time text time text time text time text time text time text time text time text ''\<rparr>)])\<rparr>)
           [\<lparr>file_name = ''export.zip'', file_size = 300, file_type = ''application/zip'',
             file_text = Inr ''PK''\<rparr>])) = [1]
   \<and> processGenericFile plain_text_runtime
        \<lparr>file_name = ''notes.txt'', file_size = 100, file_type = ''text/plain'',
         file_text = Inr ''time text time text time text time text time text time text time text time text time text time text ''\<rparr> = None"
  by code_simp

text \<open>
  C1. The claim fails on the code: \<open>processGenericFile\<close> returns what
  \<open>createEpisodeFromText\<close> built without looking at its transcript. A plain-text file
  of eleven lines \<open>time text\<close> (110 characters, two keywords, no line longer than ten
  characters) comes out of \<open>processFiles\<close> as an episode with an empty transcript. The
  archive path tests \<open>episode.transcript.length > 0\<close> and drops the same payload.
\<close>

theorem generic_path_emits_empty_episode:
  "map ep_transcript (episodes (processFiles plain_text_runtime
      [\<lparr>file_name = ''notes.txt'', file_size = 110, file_type = ''text/plain'',
        file_text = Inr (concat (replicate 11 (''time text'' @ [CHR 0x0A])))\<rparr>])) = [[]]
   \<and> process_entry plain_text_runtime ''notes.txt''
        \<lparr>entry_dir = False,
         entry_text = Inr (concat (replicate 11 (''time text'' @ [CHR 0x0A])))\<rparr> = no_result"
  by code_simp

subsection \<open>Segment normalizer\<close>

lemma timestamp_default:
  assumes "\<not> truthy (get_prop segment ''timestamp'')"
    and "\<not> truthy (get_prop segment ''time'')"
    and "\<not> truthy (get_prop segment ''start'')"
    and "\<not> truthy (get_prop segment ''startTime'')"
    and "segment_at i segment = Inr (Some s)"
  shows "seg_timestamp s = number_of_nat (i * 5)"
  using assms
  by (cases segment)
     (auto simp: segment_at_def Let_def or_chain_def js_or_def typeof_object_def
           split: if_splits jsval.splits)

text \<open>
  C2, amended. When none of the properties \<open>timestamp\<close>, \<open>time\<close>, \<open>start\<close>,
  \<open>startTime\<close> is present in the raw segment at position \<open>i\<close> (each reads as
  \<open>undefined\<close>), the segment that is emitted has the timestamp \<open>i * 5\<close>.
\<close>

theorem timestamp_fallback:
  assumes "\<forall>k \<in> set [''timestamp'', ''time'', ''start'', ''startTime''].
             get_prop segment k = JUndefined"
    and "segment_at i segment = Inr (Some s)"
  shows "seg_timestamp s = number_of_nat (i * 5)"
  using assms by (intro timestamp_default[of segment i s]) simp_all

theorem timestamp_fallback_witness:
  "segment_at 3 (JObject [(''text'', JString ''hello there'')])
     = Inr (Some \<lparr>seg_id = ''segment-3'', seg_text = ''hello there'',
                  seg_timestamp = Fin 15, seg_speaker = JUndefined,
                  seg_confidence = JUndefined\<rparr>)
   \<and> seg_timestamp \<lparr>seg_id = ''segment-3'', seg_text = ''hello there'',
                  seg_timestamp = Fin 15, seg_speaker = JUndefined,
                  seg_confidence = JUndefined\<rparr> = number_of_nat (3 * 5)"
proof -
  let ?seg = "JObject [(''text'', JString ''hello there'')]"
  let ?s = "\<lparr>seg_id = ''segment-3'', seg_text = ''hello there'',
                  seg_timestamp = Fin 15, seg_speaker = JUndefined,
                  seg_confidence = JUndefined\<rparr>"
  have absent: "\<forall>k \<in> set [''timestamp'', ''time'', ''start'', ''startTime''].
                  get_prop ?seg k = JUndefined"
    by simp
  have emitted: "segment_at 3 ?seg = Inr (Some ?s)"
    by code_simp
  show ?thesis
    using timestamp_fallback[OF absent emitted] emitted by (rule conjI[rotated])
qed

text \<open>
  C2 as stated fails for a present value that does not parse: \<open>parseFloat\<close> is applied
  to the first truthy alias and its \<open>NaN\<close> is stored; the position is used only when
  no alias is truthy.
\<close>

theorem unparsable_timestamp_counterexample:
  "parseFloat (JString ''soon'') = NaN \<and>
   segment_at 1 (JObject [(''text'', JString ''hello''), (''timestamp'', JString ''soon'')])
     = Inr (Some \<lparr>seg_id = ''segment-1'', seg_text = ''hello'', seg_timestamp = NaN,
                  seg_speaker = JUndefined, seg_confidence = JUndefined\<rparr>)
   \<and> NaN \<noteq> number_of_nat (1 * 5)"
  by code_simp

text \<open>
  C9. The claim fails on the code for a timestamp of zero. The record with the text
  \<open>second\<close> and the timestamp \<open>"0"\<close> is normalized at position 1 to a segment
  with timestamp 0; that segment, normalized again at position 1, comes out with
  timestamp 5, because \<open>0 || ... || index * 5\<close> skips the zero. The property-list
  detector runs into it: the segments it has built are normalized again by
  \<open>createEpisodeFromSegments\<close>, and a \<open>dict\<close> whose timestamp is \<open>0\<close> ends at
  5 seconds.
\<close>

theorem renormalized_zero_timestamp:
  "segment_at 1 (JObject [(''text'', JString ''second''), (''timestamp'', JString ''0''),
        (''speaker'', JString ''Ann'')])
     = Inr (Some \<lparr>seg_id = ''segment-1'', seg_text = ''second'', seg_timestamp = Fin 0,
                  seg_speaker = JString ''Ann'', seg_confidence = JUndefined\<rparr>)
   \<and> segment_at 1 (JObject [(''id'', JString ''segment-1''), (''text'', JString ''second''),
        (''timestamp'', JNumber (Fin 0)), (''speaker'', JString ''Ann''),
        (''confidence'', JUndefined)])
     = Inr (Some \<lparr>seg_id = ''segment-1'', seg_text = ''second'', seg_timestamp = Fin 5,
                  seg_speaker = JString ''Ann'', seg_confidence = JUndefined\<rparr>)
   \<and> map_option (\<lambda>e. map seg_timestamp (ep_transcript e))
        (parsePlistContent
           (document_runtime
              (Element ''plist'' [Element ''array''
                 [Element ''dict'' [Element ''key'' [TextNode ''text''],
                                    Element ''string'' [TextNode ''first''],
                                    Element ''key'' [TextNode ''timestamp''],
                                    Element ''real'' [TextNode ''3'']],
                  Element ''dict'' [Element ''key'' [TextNode ''text''],
                                    Element ''string'' [TextNode ''second''],
                                    Element ''key'' [TextNode ''timestamp''],
                                    Element ''real'' [TextNode ''0'']]]]))
           ''<plist>...</plist>'' ''episode.plist'')
     = Some [Fin 3, Fin 5]"
  by code_simp

subsection \<open>Property-list detector\<close>

lemma trim_trim: "trim (trim s) = trim s"
proof -
  define u where "u = dropWhile is_space s"
  define v where "v = dropWhile is_space (rev u)"
  have t: "trim s = rev v" by (simp add: trim_def u_def v_def)
  have vv: "dropWhile is_space v = v" by (simp add: v_def)
  have "dropWhile is_space (rev v) = rev v"
  proof (cases "v = []")
    case True
    then show ?thesis by simp
  next
    case False
    have "rev u = takeWhile is_space (rev u) @ v" by (simp add: v_def)
    then have "u = rev v @ rev (takeWhile is_space (rev u))"
      by (metis rev_append rev_rev_ident)
    then have "hd u = hd (rev v)" using False by (metis hd_append2 rev_is_Nil_conv)
    moreover have "u \<noteq> []" using False v_def by auto
    then have "\<not> is_space (hd u)" unfolding u_def by (rule hd_dropWhile)
    ultimately show ?thesis by (simp add: dropWhile_eq_self_iff)
  qed
  then show ?thesis unfolding t by (simp add: trim_def vv)
qed

lemma segment_at_text_segment:
  assumes "trim t = t" "t \<noteq> []"
  shows "\<exists>s. segment_at j (text_segment i t) = Inr (Some s) \<and> seg_text s = t"
  using assms
  by (simp add: segment_at_def text_segment_def typeof_object_def or_chain_def js_or_def Let_def)

lemma forEach_text_segments:
  assumes "list_all is_text_segment objs"
  shows "\<exists>segs. forEach_push (map (\<lambda>(index, segment). segment_at index segment) (enumerate n objs)) = Inr segs
           \<and> map seg_text segs = map obj_text objs"
  using assms
proof (induction objs arbitrary: n)
  case Nil
  then show ?case by simp
next
  case (Cons obj objs)
  from Cons.prems obtain i t where o: "obj = text_segment i t" "trim t = t" "t \<noteq> []"
    by (auto simp: is_text_segment_def)
  from segment_at_text_segment[OF o(2,3), of n i] obtain s
    where s: "segment_at n obj = Inr (Some s)" "seg_text s = t" using o(1) by auto
  from Cons.IH[of "Suc n"] Cons.prems obtain segs
    where segs: "forEach_push (map (\<lambda>(index, segment). segment_at index segment) (enumerate (Suc n) objs)) = Inr segs"
      "map seg_text segs = map obj_text objs" by auto
  have "obj_text obj = t" using o(1) by (simp add: obj_text_def text_segment_def)
  with s segs show ?case by simp
qed

lemma string_scan_objects:
  "list_all is_text_segment
     (concat (map (\<lambda>(index, element).
                    (let text = trim (textContent element) in
                     if text \<noteq> [] \<and> length text > 20 \<and> keep text then [text_segment index text]
                     else [])) (enumerate n els)))
   \<and> map obj_text
     (concat (map (\<lambda>(index, element).
                    (let text = trim (textContent element) in
                     if text \<noteq> [] \<and> length text > 20 \<and> keep text then [text_segment index text]
                     else [])) (enumerate n els)))
    = filter (\<lambda>t. length t > 20 \<and> keep t) (map (\<lambda>e. trim (textContent e)) els)"
proof (induction els arbitrary: n)
  case Nil
  then show ?case by simp
next
  case (Cons e els)
  show ?case using Cons.IH[of "Suc n"]
    by (auto simp: Let_def is_text_segment_def trim_trim obj_text_def text_segment_def)
qed

lemma createEpisode_text_segments:
  assumes "list_all is_text_segment objs" "objs \<noteq> []"
  shows "\<exists>e. createEpisodeFromSegments rt objs filename = Inr (Some e)
            \<and> map seg_text (ep_transcript e) = map obj_text objs"
proof -
  from forEach_text_segments[OF assms(1), of 0] obtain segs where
    segs: "forEach_push (map (\<lambda>(index, segment). segment_at index segment) (enumerate 0 objs)) = Inr segs"
      "map seg_text segs = map obj_text objs" by auto
  have x: "extractSegments (JObject [(''segments'', JArray objs)]) = Inr segs"
    using segs(1) by (simp add: extractSegments_def nullish_def or_chain_def js_or_def)
  have "segs \<noteq> []" using segs(2) assms(2) by auto
  then show ?thesis using x segs(2) by (simp add: createEpisodeFromSegments_def)
qed

text \<open>
  C6, amended. When the document has no \<open>parsererror\<close> and the scan of the
  \<open>dict\<close> elements yields no segment, the texts of the episode's segments are the
  trimmed texts of the \<open>string\<close> elements that are longer than 20 characters and pass
  \<open>looksLikeTranscriptText\<close> (no URL, not all digits, not all capitals, no dotted
  identifier, more than three pieces between single spaces), in document order. When no
  element passes, the last pass of \<open>parsePlistContent\<close> takes every trimmed text
  longer than 20 characters, unfiltered; when there is none either, there is no episode.
\<close>

theorem plist_fallback:
  assumes "document_querySelectorAll [''parsererror''] (DOMParser_parse rt content) = []"
    and "dict_scan (DOMParser_parse rt content) = []"
  shows "map_option (\<lambda>e. map seg_text (ep_transcript e)) (parsePlistContent rt content filename) =
     (let long = filter (\<lambda>t. length t > 20)
                   (map (\<lambda>e. trim (textContent e))
                      (document_querySelectorAll [''string''] (DOMParser_parse rt content)));
          spoken = filter looksLikeTranscriptText long
      in if spoken \<noteq> [] then Some spoken else if long \<noteq> [] then Some long else None)"
proof -
  define doc where "doc = DOMParser_parse rt content"
  define els where "els = document_querySelectorAll [''string''] doc"
  define long where "long = filter (\<lambda>t. length t > 20) (map (\<lambda>e. trim (textContent e)) els)"
  define spoken where "spoken = filter looksLikeTranscriptText long"
  have scan: "list_all is_text_segment (string_scan keep doc)"
    "map obj_text (string_scan keep doc) = filter (\<lambda>t. length t > 20 \<and> keep t) (map (\<lambda>e. trim (textContent e)) els)" for keep
    using string_scan_objects[of keep 0 els] by (simp_all add: string_scan_def els_def)
  have sp: "map obj_text (string_scan looksLikeTranscriptText doc) = spoken"
    using scan(2)[of looksLikeTranscriptText] by (simp add: spoken_def long_def)
  have lg: "map obj_text (string_scan (\<lambda>text. True) doc) = long"
    using scan(2)[of "\<lambda>text. True"] by (simp add: long_def)
  show ?thesis
  proof (cases "spoken = []")
    case False
    then have ne: "string_scan looksLikeTranscriptText doc \<noteq> []" using sp by auto
    from createEpisode_text_segments[OF scan(1) ne, of rt filename] sp
    obtain e where "createEpisodeFromSegments rt (string_scan looksLikeTranscriptText doc) filename = Inr (Some e)"
      "map seg_text (ep_transcript e) = spoken" by auto
    then show ?thesis using assms False ne
      by (simp add: parsePlistContent_def extractTranscriptFromPlist_def catch_null_def Let_def
          flip: doc_def els_def long_def spoken_def)
  next
    case True
    then have e1: "string_scan looksLikeTranscriptText doc = []" using sp by auto
    show ?thesis
    proof (cases "long = []")
      case True
      then have "string_scan (\<lambda>text. True) doc = []" using lg by auto
      then show ?thesis using assms e1 True \<open>spoken = []\<close>
        by (simp add: parsePlistContent_def extractTranscriptFromPlist_def catch_null_def Let_def
          flip: doc_def els_def long_def spoken_def)
    next
      case False
      then have ne: "string_scan (\<lambda>text. True) doc \<noteq> []" using lg by auto
      from createEpisode_text_segments[OF scan(1) ne, of rt filename] lg
      obtain e where "createEpisodeFromSegments rt (string_scan (\<lambda>text. True) doc) filename = Inr (Some e)"
        "map seg_text (ep_transcript e) = long" by auto
      then show ?thesis using assms e1 False ne \<open>spoken = []\<close>
        by (simp add: parsePlistContent_def extractTranscriptFromPlist_def catch_null_def Let_def
          flip: doc_def els_def long_def spoken_def)
    qed
  qed
qed

theorem plist_fallback_witness:
  "map_option (\<lambda>e. map seg_text (ep_transcript e))
     (parsePlistContent (document_runtime (Element ''plist''
          [Element ''string'' [TextNode ''https://example.com/feed/episode-1''],
           Element ''string'' [TextNode ''  this is a spoken line of text  '']])) ''<plist/>'' ''episode.plist'')
   = Some [''this is a spoken line of text'']"
proof -
  let ?rt = "document_runtime (Element ''plist''
          [Element ''string'' [TextNode ''https://example.com/feed/episode-1''],
           Element ''string'' [TextNode ''  this is a spoken line of text  '']])"
  have h1: "document_querySelectorAll [''parsererror''] (DOMParser_parse ?rt ''<plist/>'') = []"
    by code_simp
  have h2: "dict_scan (DOMParser_parse ?rt ''<plist/>'') = []"
    by code_simp
  have rhs: "(let long = filter (\<lambda>t. length t > 20)
                   (map (\<lambda>e. trim (textContent e))
                      (document_querySelectorAll [''string''] (DOMParser_parse ?rt ''<plist/>'')));
               spoken = filter looksLikeTranscriptText long
           in if spoken \<noteq> [] then Some spoken else if long \<noteq> [] then Some long else None)
         = Some [''this is a spoken line of text'']"
    by code_simp
  show ?thesis
    by (rule trans[OF plist_fallback[OF h1 h2] rhs])
qed

text \<open>
  C6 as stated fails: a document whose only \<open>string\<close> element holds a URL has no
  \<open>dict\<close>, the filtered pass rejects the URL, and the last pass makes it a segment.
\<close>

theorem plist_url_segment_counterexample:
  "dict_scan (Element ''plist''
          [Element ''string'' [TextNode ''https://example.com/feed/episode-1'']]) = []
   \<and> map_option (\<lambda>e. map seg_text (ep_transcript e))
        (parsePlistContent (document_runtime (Element ''plist''
          [Element ''string'' [TextNode ''https://example.com/feed/episode-1'']])) ''<plist/>'' ''episode.plist'')
      = Some [''https://example.com/feed/episode-1'']
   \<and> url_pattern ''https://example.com/feed/episode-1''
   \<and> length (split_on CHR '' '' ''https://example.com/feed/episode-1'') = 1
   \<and> \<not> looksLikeTranscriptText ''https://example.com/feed/episode-1''"
  by code_simp


subsection \<open>Search engine: patterns and highlighting\<close>

lemma lower_upper: "lower_char (upper_char c) = lower_char c"
  by (simp add: lower_char_def upper_char_def upper_letters_def lower_letters_def)

lemma upper_lower: "upper_char (lower_char c) = upper_char c"
  by (simp add: lower_char_def upper_char_def upper_letters_def lower_letters_def)


lemma same_case_iff: "upper_char c = upper_char d \<longleftrightarrow> lower_char c = lower_char d"
  by (metis lower_upper upper_lower)

lemma not_syntax_b: "CHR ''b'' \<notin> set syntax_chars"
  by (simp add: syntax_chars_def backslash_def)

lemma rx_atoms_escaped:
  "c \<in> set syntax_chars \<Longrightarrow> rx_atoms (backslash # c # rest) = map_option ((#) (Lit c)) (rx_atoms rest)"
  using not_syntax_b by auto

lemma rx_atoms_plain:
  "c \<notin> set syntax_chars \<Longrightarrow> rx_atoms (c # rest) = map_option ((#) (Lit c)) (rx_atoms rest)"
  by (cases rest) (auto simp: syntax_chars_def)

lemma rx_atoms_escapeRegex:
  "rx_atoms (escapeRegex q @ rest) = map_option ((@) (map Lit q)) (rx_atoms rest)"
proof (induction q)
  case Nil
  then show ?case by (simp add: escapeRegex_def option.map_ident)
next
  case (Cons c q)
  have e: "escapeRegex (c # q) = (if c \<in> set syntax_chars then [backslash, c] else [c]) @ escapeRegex q"
    by (simp add: escapeRegex_def)
  show ?case
    unfolding e using Cons.IH
    by (cases "c \<in> set syntax_chars")
       (simp_all add: rx_atoms_escaped rx_atoms_plain option.map_comp comp_def del: rx_atoms.simps)
qed

lemma rx_atoms_open: "rx_atoms (CHR ''('' # rest) = map_option ((#) GroupOpen) (rx_atoms rest)"
  by (cases rest) (auto simp: backslash_def)

lemma rx_atoms_wordb: "rx_atoms (backslash # CHR ''b'' # rest) = map_option ((#) WordB) (rx_atoms rest)"
  by simp

lemma rx_balanced_lits: "rx_balanced n (map Lit q @ rest) = rx_balanced n rest"
  by (induction q) auto

lemma RegExp_group: "RegExp (group_pattern q) = Some (GroupOpen # map Lit q @ [GroupClose])"
proof -
  have "rx_atoms (group_pattern q) = Some (GroupOpen # map Lit q @ [GroupClose])"
    unfolding group_pattern_def
    by (simp add: rx_atoms_open rx_atoms_escapeRegex del: rx_atoms.simps) (simp add: backslash_def)
  then show ?thesis by (simp add: RegExp_def rx_balanced_lits)
qed

lemma RegExp_word: "RegExp (word_pattern q) = Some (WordB # map Lit q @ [WordB])"
proof -
  have "rx_atoms (word_pattern q) = Some (WordB # map Lit q @ [WordB])"
    unfolding word_pattern_def
    by (simp add: rx_atoms_wordb rx_atoms_escapeRegex del: rx_atoms.simps) simp
  then show ?thesis by (simp add: RegExp_def rx_balanced_lits)
qed


lemma rx_scan_text: "concat (map piece_text (rx_scan ic as prev s)) = s"
proof (induction ic as prev s rule: rx_scan.induct)
  case (1 ic as prev s)
  show ?case
    by (subst rx_scan.simps) (auto split: option.splits list.splits simp: 1)
qed

lemma count_loop_returns: "sq \<noteq> [] \<Longrightarrow> \<exists>n. count_loop st sq pos count = Some n"
proof (induction st sq pos count rule: count_loop.induct)
  case (1 st sq pos count)
  then show ?case
    by (subst count_loop.simps) (auto split: option.splits)
qed

lemma rx_match_lits:
  "rx_match ic (map Lit q @ [GroupClose]) prev s =
     (if length q \<le> length s \<and> list_all2 (char_matches ic) q (take (length q) s)
      then Some (length q) else None)"
proof (induction q arbitrary: prev s)
  case Nil
  then show ?case by simp
next
  case (Cons c q)
  show ?case
    by (cases s) (auto simp: Cons.IH)
qed

lemma list_all2_same_image:
  "length xs = length ys \<Longrightarrow> list_all2 (\<lambda>x y. f x = f y) xs ys \<longleftrightarrow> map f xs = map f ys"
  by (induction xs ys rule: list_induct2) auto

lemma occurs_here_iff:
  "occurs_here ic q s \<longleftrightarrow>
     length q \<le> length s \<and> list_all2 (char_matches ic) q (take (length q) s)"
proof (cases "length q \<le> length s")
  case False
  then show ?thesis by (simp add: occurs_here_def)
next
  case True
  then have len: "length q = length (take (length q) s)" by simp
  have ci: "list_all2 (\<lambda>c d. upper_char c = upper_char d) q (take (length q) s)
        \<longleftrightarrow> map lower_char q = map lower_char (take (length q) s)"
    using list_all2_same_image[OF len, of lower_char] by (simp add: same_case_iff)
  show ?thesis
    using True ci
    by (auto simp: occurs_here_def char_matches_def[abs_def] toLowerCase_def list_all2_eq[symmetric])
qed

lemma group_match:
  "rx_match ic (GroupOpen # map Lit q @ [GroupClose]) prev s =
     (if occurs_here ic q s then Some (length q) else None)"
  by (simp add: rx_match_lits occurs_here_iff)

lemma scan_step:
  assumes "q \<noteq> []"
  shows "rx_scan ic (GroupOpen # map Lit q @ [GroupClose]) prev s =
     (if occurs_here ic q s
      then Matched (take (length q) s) #
           rx_scan ic (GroupOpen # map Lit q @ [GroupClose])
             (Some (last (take (length q) s))) (drop (length q) s)
      else (case s of [] \<Rightarrow> []
            | c # cs \<Rightarrow> Plain [c] # rx_scan ic (GroupOpen # map Lit q @ [GroupClose]) (Some c) cs))"
  using assms by (subst rx_scan.simps) (simp add: rx_match_lits occurs_here_iff)

lemma scan_is_wrap:
  assumes "q \<noteq> []"
  shows "concat (map (render mark) (rx_scan ic (GroupOpen # map Lit q @ [GroupClose]) prev s))
         = wrap_occurrences ic q s"
proof (induction s arbitrary: prev rule: length_induct)
  case (1 s)
  show ?case
  proof (cases s)
    case Nil
    then show ?thesis using assms
      by (subst scan_step[OF assms]) (simp add: occurs_here_def)
  next
    case (Cons c cs)
    show ?thesis
    proof (cases "occurs_here ic q s")
      case True
      have "length (drop (length q) s) < length s" using assms Cons by simp
      with 1 have "concat (map (render mark) (rx_scan ic (GroupOpen # map Lit q @ [GroupClose])
               (Some (last (take (length q) s))) (drop (length q) s)))
             = wrap_occurrences ic q (drop (length q) s)" by blast
      then show ?thesis using True assms
        by (subst scan_step[OF assms]) (simp add: Cons)
    next
      case False
      have "length cs < length s" using Cons by simp
      with 1 have "concat (map (render mark) (rx_scan ic (GroupOpen # map Lit q @ [GroupClose])
               (Some c) cs)) = wrap_occurrences ic q cs" by blast
      then show ?thesis using False assms
        by (subst scan_step[OF assms]) (simp add: Cons)
    qed
  qed
qed

lemma trim_nonempty: "trim q \<noteq> [] \<Longrightarrow> q \<noteq> []"
  by (auto simp: trim_def)

lemma highlightMatches_wrap:
  "trim query \<noteq> [] \<Longrightarrow>
   highlightMatches text query cs = Some (wrap_occurrences (\<not> flag cs) query text)"
  by (simp add: highlightMatches_def RegExp_group rx_replace_def scan_is_wrap trim_nonempty)























subsection \<open>Search engine: results and ranking\<close>


lemma those_total: "(\<And>x. x \<in> set xs \<Longrightarrow> \<exists>y. x = Some y) \<Longrightarrow> \<exists>ys. those xs = Some ys"
  by (induction xs) (auto split: option.splits)



lemma sort_insert_total:
  "(\<And>a b. \<exists>v. cmp a b = Some v) \<Longrightarrow> \<exists>zs. sort_insert cmp x ys = Some zs"
proof (induction ys)
  case Nil
  then show ?case by simp
next
  case (Cons y ys)
  from Cons.prems obtain v where "cmp x y = Some v" by blast
  moreover from Cons obtain zs where "sort_insert cmp x ys = Some zs" by blast
  ultimately show ?case by simp
qed

lemma array_sort_total:
  "(\<And>a b. \<exists>v. cmp a b = Some v) \<Longrightarrow> \<exists>ys. array_sort cmp xs = Some ys"
proof (induction xs)
  case Nil
  then show ?case by simp
next
  case (Cons x xs)
  then obtain ys where "array_sort cmp xs = Some ys" by blast
  moreover from sort_insert_total[of cmp x ys] Cons.prems obtain zs
    where "sort_insert cmp x ys = Some zs" by blast
  ultimately show ?case by simp
qed




lemma toLowerCase_Nil: "toLowerCase q = [] \<longleftrightarrow> q = []"
  by (simp add: toLowerCase_def)


lemma countMatches_total: "q \<noteq> [] \<Longrightarrow> \<exists>n. countMatches t q ww = Some n"
  using count_loop_returns[of "toLowerCase q" "toLowerCase t" 0 0]
  by (auto simp: countMatches_def Let_def RegExp_word toLowerCase_Nil split: option.splits)

lemma matchesQuery_total: "\<exists>b. matchesQuery t q ww = Some b"
  by (simp add: matchesQuery_def RegExp_word)

lemma search_segment_total:
  "trim query \<noteq> [] \<Longrightarrow> \<exists>l. search_segment query sq options episode segment = Some l"
  using matchesQuery_total[of "if flag (caseSensitive options) then seg_text segment
                  else toLowerCase (seg_text segment)" sq "wholeWords options"]
  by (auto simp: search_segment_def Let_def highlightMatches_wrap split: bool.splits)


lemma collect_results_total:
  assumes "trim query \<noteq> []"
  shows "\<exists>rs. collect_results query sq options eps = Some rs"
proof -
  have "\<exists>ys. those (concat (map (\<lambda>episode.
          map (search_segment query sq options episode) (ep_transcript episode)) eps)) = Some ys"
    by (rule those_total) (use search_segment_total[OF assms] in auto)
  then show ?thesis by (auto simp: collect_results_def)
qed





























lemma search_total:
  assumes "read_episodes this st = Some eps"
  shows "\<exists>r st'. search query options this st = Some (r, st')"
proof (cases "trim query = []")
  case True
  then show ?thesis by (simp add: search_def alloc_def)
next
  case False
  let ?sq = "if flag (caseSensitive options) then query else toLowerCase query"
  let ?cmp = "compare_results ?sq (wholeWords options)"
  have q: "query \<noteq> []" using False by (rule trim_nonempty)
  then have sq: "?sq \<noteq> []" by (simp add: toLowerCase_Nil)
  have "\<exists>v. ?cmp a b = Some v" for a b
  proof -
    from countMatches_total[OF sq] obtain ca where "countMatches (res_text a) ?sq (wholeWords options) = Some ca"
      by blast
    moreover from countMatches_total[OF sq] obtain cb where "countMatches (res_text b) ?sq (wholeWords options) = Some cb"
      by blast
    ultimately show ?thesis unfolding compare_results_def by simp
  qed
  from collect_results_total[OF False] obtain pushed where
    pushed: "collect_results query ?sq options eps = Some pushed" by blast
  from array_sort_total[of ?cmp pushed, OF \<open>\<And>a b. \<exists>v. ?cmp a b = Some v\<close>] obtain rs where
    rs: "array_sort ?cmp pushed = Some rs" by blast
  show ?thesis
    using False assms pushed rs
    by (simp add: search_def alloc_def Let_def)
qed


lemma search_store:
  assumes "search query options this st = Some (r, st')"
  shows "take (length st) st' = st
       \<and> read_episodes this st' = read_episodes this st
       \<and> search_results query options this st' = search_results query options this st"
proof -
  from assms obtain rs where st': "st' = st @ [ResultArray rs]"
    by (auto simp: search_def alloc_def Let_def split: option.splits if_splits)
  have rd: "read_episodes this st' = read_episodes this st"
    using assms unfolding st'
    by (auto simp: read_episodes_def nth_append search_def alloc_def Let_def
             split: option.splits if_splits cell.splits)
  have "search_results query options this st' = search_results query options this st"
    unfolding search_results_def search_def rd
    by (auto simp: alloc_def Let_def split: option.splits)
  with st' rd show ?thesis by simp
qed

lemma search_results_of_search:
  assumes "search query options this st = Some (r, st')"
  shows "\<exists>rs. search_results query options this st = Some rs"
  using assms
  by (auto simp: search_results_def search_def alloc_def Let_def split: option.splits if_splits)

text \<open>
  C10. For an engine whose \<open>episodes\<close> field refers to an array of the store,
  \<open>search\<close> returns; every cell that the store had before the call, the episodes
  array with its episodes and their segments among them, is the same after the call (the
  call only adds the array it returns); and the same call on the store it left returns
  the same sequence of results.
\<close>

theorem search_is_pure:
  assumes "read_episodes this st = Some eps"
  shows "\<exists>r st' rs. search query options this st = Some (r, st')
           \<and> take (length st) st' = st
           \<and> read_episodes this st' = Some eps
           \<and> search_results query options this st = Some rs
           \<and> search_results query options this st' = Some rs"
proof -
  from search_total[OF assms] obtain r st' where s: "search query options this st = Some (r, st')"
    by blast
  from search_results_of_search[OF s] obtain rs where rs: "search_results query options this st = Some rs"
    by blast
  from search_store[OF s] have "take (length st) st' = st" "read_episodes this st' = Some eps"
    "search_results query options this st' = Some rs"
    using assms rs by simp_all
  with s rs show ?thesis by blast
qed

theorem search_is_pure_witness:
  "\<exists>r st' rs.
     search ''fox'' default_options (engine_at 0)
       [EpisodeArray [an_episode ''A'' [a_segment ''segment-0'' ''Fox fox'' (Fin 0)]]] = Some (r, st')
     \<and> take 1 st' = [EpisodeArray [an_episode ''A'' [a_segment ''segment-0'' ''Fox fox'' (Fin 0)]]]
     \<and> read_episodes (engine_at 0) st'
         = Some [an_episode ''A'' [a_segment ''segment-0'' ''Fox fox'' (Fin 0)]]
     \<and> search_results ''fox'' default_options (engine_at 0)
         [EpisodeArray [an_episode ''A'' [a_segment ''segment-0'' ''Fox fox'' (Fin 0)]]] = Some rs
     \<and> search_results ''fox'' default_options (engine_at 0) st' = Some rs"
proof -
  have h: "read_episodes (engine_at 0)
       [EpisodeArray [an_episode ''A'' [a_segment ''segment-0'' ''Fox fox'' (Fin 0)]]]
     = Some [an_episode ''A'' [a_segment ''segment-0'' ''Fox fox'' (Fin 0)]]"
    by (simp add: read_episodes_def engine_at_def setEpisodes_def)
  show ?thesis
    using search_is_pure[OF h, of "''fox''" default_options] by simp
qed

end
